theory Spec2Isabelle
  imports Main "HOL-Library.Word"
begin

section \<open>The nightlightdns plugin: data model\<close>

text \<open>
  The plugin is one handler of a CoreDNS plugin chain. \<open>ServeDNS\<close> answers A and AAAA
  queries from the table file \<open>dns.json\<close> and hands every other query to the next handler;
  \<open>setup\<close> registers the handler. The Go structs are records, the outcome of every call
  into a library (file system, JSON decoder, address parser, metrics, chain dispatch,
  configuration dispenser) is either modelled after the library or taken as a parameter,
  and what a call does besides returning a value is a list of events in the order of the
  statements that perform them.
\<close>

type_synonym byte = "8 word"

text \<open>Go's \<open>net.IP\<close> is a byte slice; \<open>nil\<close> (no address) is the empty list.\<close>

type_synonym IP = "byte list"

text \<open>Go \<open>error\<close> values: an error of a library, or one wrapped by \<open>plugin.Error\<close>.\<close>

datatype error = Err string | Plugin_Error string error

text \<open>A run-time panic of Go: an index expression out of range (index, length).\<close>

datatype panic = Index_out_of_range nat nat

record DNSRecord =
  Name :: string
  Ipaddress :: string

record DNSRecords =
  Records :: "DNSRecord list"

subsection \<open>The DNS message of \<open>miekg/dns\<close>\<close>

record Question =
  Q_Name :: string
  Qtype :: "16 word"
  Qclass :: "16 word"

record RR_Header =
  Hdr_Name :: string
  Rrtype :: "16 word"
  Class :: "16 word"
  Ttl :: "32 word"
  Rdlength :: "16 word"

text \<open>
  Resource records: the handler builds \<open>dns.A\<close> records only; any other record a message
  may carry keeps its header and its data as bytes.
\<close>

datatype RR = RR_A RR_Header IP | RR_Other RR_Header "byte list"

record Msg =
  Msg_Id :: "16 word"
  Response :: bool
  Opcode :: int
  Authoritative :: bool
  Truncated :: bool
  RecursionDesired :: bool
  RecursionAvailable :: bool
  Zero :: bool
  AuthenticatedData :: bool
  CheckingDisabled :: bool
  Rcode :: int
  Compress :: bool
  Question :: "Question list"
  Answer :: "RR list"
  Ns :: "RR list"
  Extra :: "RR list"

definition TypeA :: "16 word" where "TypeA = 1"
definition TypeAAAA :: "16 word" where "TypeAAAA = 28"
definition ClassINET :: "16 word" where "ClassINET = 1"
definition OpcodeQuery :: int where "OpcodeQuery = 0"
definition RcodeSuccess :: int where "RcodeSuccess = 0"
definition RcodeServerFailure :: int where "RcodeServerFailure = 2"

text \<open>\<open>new(dns.Msg)\<close>: every field has its zero value.\<close>

definition new_Msg :: Msg where
  "new_Msg = \<lparr>Msg_Id = 0, Response = False, Opcode = 0, Authoritative = False,
     Truncated = False, RecursionDesired = False, RecursionAvailable = False, Zero = False,
     AuthenticatedData = False, CheckingDisabled = False, Rcode = 0, Compress = False,
     Question = [], Answer = [], Ns = [], Extra = []\<rparr>"

text \<open>
  \<open>(*dns.Msg).SetReply\<close>: the reply takes the identifier and the opcode of the request,
  is marked as a response with result code success, copies the RD and CD bits of a
  standard query, and repeats the first question.
\<close>

definition SetReply :: "Msg \<Rightarrow> Msg \<Rightarrow> Msg" where
  "SetReply m request =
     (let m1 = m\<lparr>Msg_Id := Msg_Id request, Response := True, Opcode := Opcode request\<rparr>;
          m2 = (if Opcode m1 = OpcodeQuery
                then m1\<lparr>RecursionDesired := RecursionDesired request,
                        CheckingDisabled := CheckingDisabled request\<rparr>
                else m1);
          m3 = m2\<lparr>Rcode := RcodeSuccess\<rparr>
      in (case Question request of [] \<Rightarrow> m3 | q # _ \<Rightarrow> m3\<lparr>Question := [q]\<rparr>))"

text \<open>\<open>(*dns.Msg).SetRcode\<close>: a reply as \<open>SetReply\<close> makes it, with the given result code.\<close>

definition SetRcode :: "Msg \<Rightarrow> Msg \<Rightarrow> int \<Rightarrow> Msg" where
  "SetRcode m request rcode = (SetReply m request)\<lparr>Rcode := rcode\<rparr>"

text \<open>
  \<open>request.Request.QType\<close>: the type of the first question, 0 for a message without
  question.
\<close>

definition QType :: "Msg \<Rightarrow> 16 word" where
  "QType r = (case Question r of [] \<Rightarrow> 0 | q # _ \<Rightarrow> Qtype q)"

subsection \<open>Events\<close>

text \<open>
  What the plugin's log lines carry: a text, the "Found matching record" line with the
  split name and the address it formats, or the answer section.
\<close>

datatype log_line = Text string | Found_matching_record "string list" string | Answers "RR list"

text \<open>
  The effects of one call, in program order: a log line, an increment of the request
  counter under a server label, a message written to the response writer, and the call
  of the next handler's \<open>ServeDNS\<close> with its three arguments.
\<close>

datatype ('ctx, 'w) event =
    Log_Debug string
  | Log_Info log_line
  | Counter_Inc string
  | WriteMsg 'w Msg
  | Next_ServeDNS 'ctx 'w Msg

section \<open>The record matcher\<close>

text \<open>
  \<open>strings.Split(s, sep)\<close> for a separator of one byte, as \<open>genSplit\<close> computes it: find
  the first separator; without one the rest of the text is the last segment, otherwise the
  text before it is a segment and the splitting goes on behind it.
\<close>

function Split :: "string \<Rightarrow> char \<Rightarrow> string list" where
  "Split s sep =
     (case dropWhile (\<lambda>c. c \<noteq> sep) s of
        [] \<Rightarrow> [s]
      | _ # rest \<Rightarrow> takeWhile (\<lambda>c. c \<noteq> sep) s # Split rest sep)"
  by pat_completeness auto
termination
proof (relation "measure (\<lambda>(s, sep). length s)")
  show "wf (measure (\<lambda>(s, sep). length s))" by simp
next
  fix s :: string and sep :: char and x rest
  assume "dropWhile (\<lambda>c. c \<noteq> sep) s = x # rest"
  then have "Suc (length rest) = length (dropWhile (\<lambda>c. c \<noteq> sep) s)" by simp
  also have "\<dots> \<le> length s" by (rule length_dropWhile_le)
  finally show "((rest, sep), (s, sep)) \<in> measure (\<lambda>(s, sep). length s)" by simp
qed

declare Split.simps [simp del]

text \<open>A Go index expression \<open>xs[i]\<close>: out of range it panics.\<close>

definition index :: "'a list \<Rightarrow> nat \<Rightarrow> panic + 'a" where
  "index xs i = (if i < length xs then Inr (xs ! i) else Inl (Index_out_of_range i (length xs)))"

text \<open>
  The loop \<open>for _, record := range data.Records\<close> of \<open>ServeDNS\<close>, on the records still to
  visit, with the current \<open>outip\<close>. It returns the final \<open>outip\<close> and the log lines of the
  iterations, or the panic of the index expression \<open>baseName[0]\<close>.
\<close>

fun range_Records :: "string \<Rightarrow> DNSRecord list \<Rightarrow> string \<Rightarrow> panic + (string \<times> ('ctx, 'w) event list)" where
  "range_Records qname [] outip = Inr (outip, [])"
| "range_Records qname (record # rest) outip =
     (let baseName = Split qname (CHR ''.'') in
      case index baseName 0 of
        Inl p \<Rightarrow> Inl p
      | Inr key \<Rightarrow>
          (if Name record = key
           then (case range_Records qname rest (Ipaddress record) of
                   Inl p \<Rightarrow> Inl p
                 | Inr (out, evs) \<Rightarrow>
                     Inr (out, Log_Info (Text (Ipaddress record))
                               # Log_Info (Found_matching_record baseName (Ipaddress record))
                               # evs))
           else (case range_Records qname rest outip of
                   Inl p \<Rightarrow> Inl p
                 | Inr (out, evs) \<Rightarrow> Inr (out, Log_Info (Text (Ipaddress record)) # evs))))"

section \<open>The handler\<close>

text \<open>
  The parts of the environment that \<open>ServeDNS\<close> calls and whose code is outside the
  plugin are parameters:
  \<^item> \<open>ReadFile\<close>, \<open>ioutil.ReadFile\<close>: the bytes read and the error, if any;
  \<^item> \<open>Unmarshal\<close>, \<open>json.Unmarshal\<close> into a \<open>DNSRecords\<close> value: what the destination
    holds afterwards and the error, if any;
  \<^item> \<open>ParseIP_text\<close>, what \<open>net.ParseIP\<close> makes of a text that has a dot or a colon;
  \<^item> \<open>WithServer\<close>, \<open>metrics.WithServer\<close>: the server label of a context;
  \<^item> \<open>request_Name\<close>, \<open>request.Request.Name\<close>: the query name of a message as the
    request wrapper reports it;
  \<^item> \<open>WriteMsg_result\<close>: the error, if any, of the writer's \<open>WriteMsg\<close>.
\<close>

record ('ctx, 'w) env =
  ReadFile :: "string \<Rightarrow> byte list \<times> error option"
  Unmarshal :: "byte list \<Rightarrow> DNSRecords \<Rightarrow> DNSRecords \<times> error option"
  ParseIP_text :: "string \<Rightarrow> IP"
  WithServer :: "'ctx \<Rightarrow> string"
  request_Name :: "Msg \<Rightarrow> string"
  WriteMsg_result :: "'w \<Rightarrow> Msg \<Rightarrow> error option"

text \<open>
  \<open>net.ParseIP\<close> looks for the first dot or colon to choose between the two address
  syntaxes; a text with neither is no address and the result is \<open>nil\<close>.
\<close>

definition ParseIP :: "('ctx, 'w) env \<Rightarrow> string \<Rightarrow> IP" where
  "ParseIP env s =
     (if CHR ''.'' \<in> set s \<or> CHR '':'' \<in> set s then ParseIP_text env s else [])"

text \<open>\<open>plugin.Handler\<close>: the \<open>ServeDNS\<close> of a handler, by the result it produces.\<close>

type_synonym ('ctx, 'w) Handler = "'ctx \<Rightarrow> 'w \<Rightarrow> Msg \<Rightarrow> int \<times> error option"

record ('ctx, 'w) Nightlightdns =
  Next :: "('ctx, 'w) Handler option"

record 'w Request =
  W :: 'w
  Req :: Msg

definition Nightlightdns_Name :: "('ctx, 'w) Nightlightdns \<Rightarrow> string" where
  "Nightlightdns_Name n = ''nightlightdns''"

text \<open>
  \<open>plugin.NextOrFailure\<close>: with a next handler, its \<open>ServeDNS\<close> is called on the context,
  writer and message given and its result is the result; without one (\<open>nil\<close>) the
  result is SERVFAIL and an error. Contexts are opaque here: the tracing span that the
  library adds to the context when tracing is on is not modelled.
\<close>

definition NextOrFailure ::
  "string \<Rightarrow> ('ctx, 'w) Handler option \<Rightarrow> 'ctx \<Rightarrow> 'w \<Rightarrow> Msg
     \<Rightarrow> (int \<times> error option) \<times> ('ctx, 'w) event list" where
  "NextOrFailure name next ctx w r =
     (case next of
        Some h \<Rightarrow> (h ctx w r, [Next_ServeDNS ctx w r])
      | None \<Rightarrow> ((RcodeServerFailure, Some (Plugin_Error name (Err ''no next plugin found''))), []))"

definition dnserror ::
  "int \<Rightarrow> 'w Request \<Rightarrow> error option \<Rightarrow> (int \<times> error option) \<times> ('ctx, 'w) event list" where
  "dnserror rcode state err =
     (let m = new_Msg;
          m = SetRcode m (Req state) rcode;
          m = m\<lparr>Authoritative := True\<rparr>
      in ((RcodeSuccess, err), [WriteMsg (W state) m]))"

text \<open>
  Statements in sequence. A statement either returns from the function with a value or
  falls through to the next statement; \<open>block\<close> runs statements in order and stops at
  the first that returns, so that a statement behind a \<open>return\<close> is never run.
\<close>

datatype 'a completion = Returns 'a | Falls_through

definition return_stmt :: "'a \<times> 'e list \<Rightarrow> 'a completion \<times> 'e list" where
  "return_stmt call = (Returns (fst call), snd call)"

fun block :: "('a completion \<times> 'e list) list \<Rightarrow> 'a completion \<times> 'e list" where
  "block [] = (Falls_through, [])"
| "block (stmt # stmts) =
     (case stmt of
        (Returns v, evs) \<Rightarrow> (Returns v, evs)
      | (Falls_through, evs) \<Rightarrow> (case block stmts of (c, evs') \<Rightarrow> (c, evs @ evs')))"

text \<open>
  \<open>ServeDNS\<close> from the read of the table file to its last line: load the table, run
  the matcher, build the answer, count the request, build and write the reply.
\<close>

definition ServeDNS_answer ::
  "('ctx, 'w) env \<Rightarrow> 'ctx \<Rightarrow> 'w \<Rightarrow> Msg \<Rightarrow> string \<Rightarrow> RR list
     \<Rightarrow> (panic + int \<times> error option) \<times> ('ctx, 'w) event list" where
  "ServeDNS_answer env ctx w r qname answers =
     (case ReadFile env ''dns.json'' of (file, _) \<Rightarrow>
      let data = \<lparr>Records = []\<rparr> in
      case Unmarshal env file data of (data, _) \<Rightarrow>
      let outip = [] in
      case range_Records qname (Records data) outip of
        Inl p \<Rightarrow> (Inl p, [])
      | Inr (outip, evs) \<Rightarrow>
          (let answers = answers @
                 [RR_A \<lparr>Hdr_Name = qname, Rrtype = TypeA, Class = ClassINET, Ttl = 30,
                        Rdlength = 0\<rparr> (ParseIP env outip)];
               m = new_Msg;
               m = SetReply m r;
               m = m\<lparr>Authoritative := True\<rparr>;
               m = m\<lparr>Answer := answers\<rparr>
           in case WriteMsg_result env w m of _ \<Rightarrow>
                (Inr (RcodeSuccess, None),
                 evs @ [Log_Info (Answers answers), Counter_Inc (WithServer env ctx),
                        WriteMsg w m])))"

text \<open>
  \<open>ServeDNS\<close>: its result (a panic, or the result code and the error) and its events.
  The branch for the other query types holds two \<open>return\<close> statements, as the source does.
\<close>

definition ServeDNS ::
  "('ctx, 'w) env \<Rightarrow> ('ctx, 'w) Nightlightdns \<Rightarrow> 'ctx \<Rightarrow> 'w \<Rightarrow> Msg
     \<Rightarrow> (panic + int \<times> error option) \<times> ('ctx, 'w) event list" where
  "ServeDNS env n ctx w r =
     (let err = None;
          state = \<lparr>W = w, Req = r\<rparr>;
          qname = request_Name env (Req state);
          evs0 = [Log_Debug ''Received response'', Log_Info (Text qname)];
          answers = []
      in if QType (Req state) \<noteq> TypeA \<and> QType (Req state) \<noteq> TypeAAAA
         then (case block [return_stmt (NextOrFailure (Nightlightdns_Name n) (Next n) ctx w r),
                           return_stmt (dnserror RcodeServerFailure state err)] of
                 (Returns v, evs) \<Rightarrow> (Inr v, evs0 @ evs)
               | (Falls_through, evs) \<Rightarrow>
                   (case ServeDNS_answer env ctx w r qname answers of
                      (res, evs') \<Rightarrow> (res, evs0 @ evs @ evs')))
         else (case ServeDNS_answer env ctx w r qname answers of
                 (res, evs) \<Rightarrow> (res, evs0 @ evs)))"

text \<open>What a call did, read off its events.\<close>

fun is_WriteMsg :: "('ctx, 'w) event \<Rightarrow> bool" where
  "is_WriteMsg (WriteMsg w m) = True"
| "is_WriteMsg e = False"

fun is_Next_ServeDNS :: "('ctx, 'w) event \<Rightarrow> bool" where
  "is_Next_ServeDNS (Next_ServeDNS ctx w r) = True"
| "is_Next_ServeDNS e = False"

fun is_Counter_Inc :: "('ctx, 'w) event \<Rightarrow> bool" where
  "is_Counter_Inc (Counter_Inc l) = True"
| "is_Counter_Inc e = False"

definition writes :: "('ctx, 'w) event list \<Rightarrow> ('ctx, 'w) event list" where
  "writes evs = filter is_WriteMsg evs"

definition delegations :: "('ctx, 'w) event list \<Rightarrow> ('ctx, 'w) event list" where
  "delegations evs = filter is_Next_ServeDNS evs"

definition increments :: "('ctx, 'w) event list \<Rightarrow> ('ctx, 'w) event list" where
  "increments evs = filter is_Counter_Inc evs"

section \<open>Registration\<close>

text \<open>
  \<open>setup\<close> reads the plugin's directive through the \<open>caddy.Controller\<close>. The token
  dispenser of the controller belongs to the configuration library and is a parameter:
  a dispenser state and the three operations \<open>setup\<close> calls on it. \<open>Next\<close> and \<open>NextArg\<close>
  report whether they loaded a token and leave the dispenser in a new state.
\<close>

record 'd caddy =
  Dispenser_Next :: "'d \<Rightarrow> bool \<times> 'd"
  Dispenser_NextArg :: "'d \<Rightarrow> bool \<times> 'd"
  Dispenser_ArgErr :: "'d \<Rightarrow> error"

text \<open>
  The server configuration that \<open>dnsserver.GetConfig\<close> finds for the controller: its list
  of plugins, each a function from the next handler to a handler.
\<close>

record ('ctx, 'w) Config =
  Plugin :: "(('ctx, 'w) Handler option \<Rightarrow> ('ctx, 'w) Nightlightdns) list"

record ('d, 'ctx, 'w) Controller =
  Dispenser :: 'd
  GetConfig :: "('ctx, 'w) Config"

definition AddPlugin ::
  "('ctx, 'w) Config \<Rightarrow> (('ctx, 'w) Handler option \<Rightarrow> ('ctx, 'w) Nightlightdns)
     \<Rightarrow> ('ctx, 'w) Config" where
  "AddPlugin cfg m = cfg\<lparr>Plugin := Plugin cfg @ [m]\<rparr>"

text \<open>
  The function \<open>setup\<close> of the plugin (the name is a keyword of Isabelle, hence the
  longer one): the error it returns, if any, and the controller afterwards.
\<close>

definition setup_nightlightdns ::
  "'d caddy \<Rightarrow> ('d, 'ctx, 'w) Controller \<Rightarrow> error option \<times> ('d, 'ctx, 'w) Controller" where
  "setup_nightlightdns lib c =
     (case Dispenser_Next lib (Dispenser c) of (_, d1) \<Rightarrow>
      case Dispenser_NextArg lib d1 of (another, d2) \<Rightarrow>
        if another
        then (Some (Plugin_Error ''nightlightdns'' (Dispenser_ArgErr lib d2)),
              c\<lparr>Dispenser := d2\<rparr>)
        else (None,
              c\<lparr>Dispenser := d2,
                GetConfig := AddPlugin (GetConfig c) (\<lambda>next. \<lparr>Next = next\<rparr>)\<rparr>))"

section \<open>The specification's terms\<close>

text \<open>The leftmost label of a name: the text before its first dot.\<close>

definition leftmost_label :: "string \<Rightarrow> string" where
  "leftmost_label name = takeWhile (\<lambda>c. c \<noteq> CHR ''.'') name"

text \<open>
  The address of the last record of the table whose name is the key; the empty text when
  no record has that name.
\<close>

definition last_match :: "string \<Rightarrow> DNSRecord list \<Rightarrow> string" where
  "last_match key records =
     (let matching = filter (\<lambda>record. Name record = key) records
      in if matching = [] then [] else Ipaddress (last matching))"

text \<open>
  The record set of a request: what the decoder leaves in a fresh \<open>DNSRecords\<close> value
  when it is given the bytes that reading \<open>dns.json\<close> returned.
\<close>

definition loaded_Records :: "('ctx, 'w) env \<Rightarrow> DNSRecord list" where
  "loaded_Records env = Records (fst (Unmarshal env (fst (ReadFile env ''dns.json'')) \<lparr>Records = []\<rparr>))"

text \<open>
  The events of a call before its first increment of the request counter, and the events
  from that increment on.
\<close>

definition before_increment :: "('ctx, 'w) event list \<Rightarrow> ('ctx, 'w) event list" where
  "before_increment evs = takeWhile (\<lambda>e. \<not> is_Counter_Inc e) evs"

definition from_increment :: "('ctx, 'w) event list \<Rightarrow> ('ctx, 'w) event list" where
  "from_increment evs = dropWhile (\<lambda>e. \<not> is_Counter_Inc e) evs"

text \<open>The messages a call wrote, in order.\<close>

fun written :: "('ctx, 'w) event list \<Rightarrow> Msg list" where
  "written [] = []"
| "written (WriteMsg w m # evs) = m # written evs"
| "written (e # evs) = written evs"

text \<open>
  A token follows the plugin's name: once \<open>Next\<close> has loaded the name of the directive,
  \<open>NextArg\<close> reports a further token.
\<close>

definition token_follows :: "'d caddy \<Rightarrow> ('d, 'ctx, 'w) Controller \<Rightarrow> bool" where
  "token_follows lib c = fst (Dispenser_NextArg lib (snd (Dispenser_Next lib (Dispenser c))))"

text \<open>
  Modelled from the spec: the counter \<open>requestCount\<close>, whose declaration is not in the two
  source files ("one counter, labeled by serving-instance identity, incremented once per
  locally-answered address query"). An increment is the event \<open>Counter_Inc\<close> with the
  label; by how much the counter under a label grows over a call is the number of these
  events.
\<close>

definition requestCount :: "('ctx, 'w) event list \<Rightarrow> string \<Rightarrow> nat" where
  "requestCount evs label = length (filter (\<lambda>e. e = Counter_Inc label) evs)"

section \<open>Example environments and queries\<close>

definition bytes_of :: "string \<Rightarrow> byte list" where
  "bytes_of s = map (\<lambda>c. of_nat (of_char c)) s"

text \<open>The table of the specification's round trip, and a table whose second entry has a number for a name.\<close>

definition table_text :: string where
  \<open>table_text = ''{"records":[{"name":"host","ipaddress":"10.0.0.5"}]}''\<close>

definition mistyped_table_text :: string where
  \<open>mistyped_table_text = ''{"records":[{"name":"host","ipaddress":"10.0.0.5"},{"name":1}]}''\<close>

text \<open>
  The JSON decoder on these two texts and on the empty input. On the first it stores the
  one record. On the second it stores the first record, meets the number where the field
  wants a string, keeps the error, decodes on and returns the error with both entries
  stored. Everything else here is rejected before anything is stored.
\<close>

definition example_Unmarshal :: "byte list \<Rightarrow> DNSRecords \<Rightarrow> DNSRecords \<times> error option" where
  "example_Unmarshal file data =
     (if file = bytes_of table_text
      then (data\<lparr>Records := [\<lparr>Name = ''host'', Ipaddress = ''10.0.0.5''\<rparr>]\<rparr>, None)
      else if file = bytes_of mistyped_table_text
      then (data\<lparr>Records := [\<lparr>Name = ''host'', Ipaddress = ''10.0.0.5''\<rparr>,
                               \<lparr>Name = [], Ipaddress = []\<rparr>]\<rparr>,
            Some (Err ''json: cannot unmarshal number into Go struct field DNSRecord.records.name of type string''))
      else if file = []
      then (data, Some (Err ''unexpected end of JSON input''))
      else (data, Some (Err ''invalid character'')))"

text \<open>\<open>net.ParseIP\<close> gives an IPv4 address in its 16-byte form.\<close>

definition example_ParseIP_text :: "string \<Rightarrow> IP" where
  "example_ParseIP_text s =
     (if s = ''10.0.0.5'' then [0, 0, 0, 0, 0, 0, 0, 0, 0, 0, 255, 255, 10, 0, 0, 5] else [])"

text \<open>
  An environment for a given outcome of reading the table file. Contexts are server
  labels, writers are numbers, and the query name is the name of the first question.
\<close>

definition example_env :: "byte list \<times> error option \<Rightarrow> (string, nat) env" where
  "example_env read =
     \<lparr>ReadFile = (\<lambda>path. read),
      Unmarshal = example_Unmarshal,
      ParseIP_text = example_ParseIP_text,
      WithServer = (\<lambda>ctx. ctx),
      request_Name = (\<lambda>r. case Question r of [] \<Rightarrow> ''.'' | q # _ \<Rightarrow> Q_Name q),
      WriteMsg_result = (\<lambda>w m. None)\<rparr>"

definition table_env :: "(string, nat) env" where
  "table_env = example_env (bytes_of table_text, None)"

definition mistyped_table_env :: "(string, nat) env" where
  "mistyped_table_env = example_env (bytes_of mistyped_table_text, None)"

definition missing_table_env :: "(string, nat) env" where
  "missing_table_env = example_env ([], Some (Err ''open dns.json: no such file or directory''))"

definition example_query :: "16 word \<Rightarrow> Msg" where
  "example_query qtype =
     new_Msg\<lparr>Msg_Id := 4711, RecursionDesired := True,
             Question := [\<lparr>Q_Name = ''host.example.com.'', Qtype = qtype, Qclass = ClassINET\<rparr>]\<rparr>"

definition TypeMX :: "16 word" where "TypeMX = 15"

definition RcodeNameError :: int where "RcodeNameError = 3"

definition example_next :: "(string, nat) Handler" where
  "example_next ctx w r = (RcodeNameError, None)"

definition example_plugin :: "(string, nat) Nightlightdns" where
  "example_plugin = \<lparr>Next = Some example_next\<rparr>"

text \<open>
  A dispenser for the examples: its state is the list of the tokens of the directive's
  line that are not loaded yet.
\<close>

definition example_caddy :: "string list caddy" where
  "example_caddy =
     \<lparr>Dispenser_Next = (\<lambda>d. (d \<noteq> [], tl d)),
      Dispenser_NextArg = (\<lambda>d. (d \<noteq> [], tl d)),
      Dispenser_ArgErr = (\<lambda>d. Err ''Wrong argument count or unexpected line ending'')\<rparr>"

definition example_controller :: "string list \<Rightarrow> (string list, string, nat) Controller" where
  "example_controller tokens = \<lparr>Dispenser = tokens, GetConfig = \<lparr>Plugin = []\<rparr>\<rparr>"

section \<open>Lemmas on the matcher\<close>

text \<open>
  The first segment of a split is the text before the first separator, so a split is
  never empty and the index expression \<open>baseName[0]\<close> is in range.
\<close>

lemma Split_hd: "\<exists>segs. Split s sep = takeWhile (\<lambda>c. c \<noteq> sep) s # segs"
proof (cases "dropWhile (\<lambda>c. c \<noteq> sep) s")
  case Nil
  then have all: "takeWhile (\<lambda>c. c \<noteq> sep) s = s"
    by (simp only: dropWhile_eq_Nil_conv takeWhile_eq_all_conv)
  have "Split s sep = [s]"
    by (subst Split.simps) (simp only: Nil list.case)
  then have "Split s sep = takeWhile (\<lambda>c. c \<noteq> sep) s # []"
    by (simp only: all)
  then show ?thesis by (rule exI)
next
  case (Cons x rest)
  have "Split s sep = takeWhile (\<lambda>c. c \<noteq> sep) s # Split rest sep"
    by (subst Split.simps) (simp only: Cons list.case)
  then show ?thesis by simp
qed

lemma index_Split_0: "index (Split s sep) 0 = Inr (takeWhile (\<lambda>c. c \<noteq> sep) s)"
proof -
  obtain segs where "Split s sep = takeWhile (\<lambda>c. c \<noteq> sep) s # segs"
    using Split_hd by blast
  then show ?thesis by (simp add: index_def)
qed

lemma index_baseName: "index (Split qname (CHR ''.'')) 0 = Inr (leftmost_label qname)"
  by (simp add: index_Split_0 leftmost_label_def)

text \<open>
  The loop leaves in \<open>outip\<close> the address of the last record whose name is the
  leftmost label, or the initial value when there is none; its events are log lines only.
\<close>

lemma case_snoc: "(case xs @ [y] of [] \<Rightarrow> a | r # _ \<Rightarrow> f r) = (case xs of [] \<Rightarrow> f y | r # _ \<Rightarrow> f r)"
  by (cases xs) simp_all

lemma range_Records_Inr:
  "\<exists>evs. (range_Records qname records outip :: panic + string \<times> ('ctx, 'w) event list) =
            Inr (case rev (filter (\<lambda>record. Name record = leftmost_label qname) records) of
                   [] \<Rightarrow> outip | record # _ \<Rightarrow> Ipaddress record, evs)
         \<and> writes evs = [] \<and> delegations evs = [] \<and> increments evs = []"
proof (induction records arbitrary: outip)
  case Nil
  show ?case by (simp add: writes_def delegations_def increments_def)
next
  case (Cons entry rest)
  show ?case
  proof (cases "Name entry = leftmost_label qname")
    case True
    obtain evs :: "('ctx, 'w) event list" where
      "range_Records qname rest (Ipaddress entry) =
         Inr (case rev (filter (\<lambda>record. Name record = leftmost_label qname) rest) of
                [] \<Rightarrow> Ipaddress entry | record # _ \<Rightarrow> Ipaddress record, evs)"
      and "writes evs = []" "delegations evs = []" "increments evs = []"
      using Cons.IH [of "Ipaddress entry"] by blast
    with True show ?thesis
      by (simp add: index_baseName case_snoc writes_def delegations_def increments_def)
  next
    case False
    obtain evs :: "('ctx, 'w) event list" where
      "range_Records qname rest outip =
         Inr (case rev (filter (\<lambda>record. Name record = leftmost_label qname) rest) of
                [] \<Rightarrow> outip | record # _ \<Rightarrow> Ipaddress record, evs)"
      and "writes evs = []" "delegations evs = []" "increments evs = []"
      using Cons.IH [of outip] by blast
    with False show ?thesis
      by (simp add: index_baseName writes_def delegations_def increments_def)
  qed
qed

lemma case_rev_last:
  "(case rev xs of [] \<Rightarrow> a | r # _ \<Rightarrow> f r) = (if xs = [] then a else f (last xs))"
  by (cases xs rule: rev_cases) simp_all

lemma range_Records_last_match:
  "\<exists>evs. (range_Records qname records [] :: panic + string \<times> ('ctx, 'w) event list) =
            Inr (last_match (leftmost_label qname) records, evs)
         \<and> writes evs = [] \<and> delegations evs = [] \<and> increments evs = []"
  using range_Records_Inr [of qname records "[]"]
  by (simp add: last_match_def Let_def case_rev_last)

section \<open>Lemmas on the handler\<close>

lemma writes_simps:
  "writes [] = []"
  "writes (Log_Debug s # evs) = writes evs"
  "writes (Log_Info l # evs) = writes evs"
  "writes (Counter_Inc lbl # evs) = writes evs"
  "writes (WriteMsg w m # evs) = WriteMsg w m # writes evs"
  "writes (Next_ServeDNS ctx w m # evs) = writes evs"
  "writes (evs @ evs') = writes evs @ writes evs'"
  by (simp_all add: writes_def)

lemma delegations_simps:
  "delegations [] = []"
  "delegations (Log_Debug s # evs) = delegations evs"
  "delegations (Log_Info l # evs) = delegations evs"
  "delegations (Counter_Inc lbl # evs) = delegations evs"
  "delegations (WriteMsg w m # evs) = delegations evs"
  "delegations (Next_ServeDNS ctx w m # evs) = Next_ServeDNS ctx w m # delegations evs"
  "delegations (evs @ evs') = delegations evs @ delegations evs'"
  by (simp_all add: delegations_def)

lemma increments_simps:
  "increments [] = []"
  "increments (Log_Debug s # evs) = increments evs"
  "increments (Log_Info l # evs) = increments evs"
  "increments (Counter_Inc lbl # evs) = Counter_Inc lbl # increments evs"
  "increments (WriteMsg w m # evs) = increments evs"
  "increments (Next_ServeDNS ctx w m # evs) = increments evs"
  "increments (evs @ evs') = increments evs @ increments evs'"
  by (simp_all add: increments_def)

lemma written_append: "written (evs @ evs') = written evs @ written evs'"
  by (induction evs rule: written.induct) simp_all

lemma written_writes_Nil: "writes evs = [] \<Longrightarrow> written evs = []"
  by (induction evs rule: written.induct) (simp_all add: writes_def)

lemma SetReply_fields:
  "Msg_Id (SetReply m r) = Msg_Id r"
  "Response (SetReply m r) = True"
  "Rcode (SetReply m r) = RcodeSuccess"
  "Authoritative (SetReply m r) = Authoritative m"
  "Answer (SetReply m r) = Answer m"
  by (simp_all add: SetReply_def Let_def split: list.splits)

lemma ParseIP_empty: "ParseIP env [] = []"
  by (simp add: ParseIP_def)

text \<open>
  The two paths of \<open>ServeDNS\<close> in closed form: the answer path returns success after
  the log lines, the increment of the counter and the write of the reply, in this order;
  the other path returns what \<open>plugin.NextOrFailure\<close> returns.
\<close>

lemma ServeDNS_answer_eq:
  "\<exists>evs. ServeDNS_answer env ctx w r qname [] =
       (Inr (RcodeSuccess, None),
        evs @ [Log_Info (Answers [RR_A \<lparr>Hdr_Name = qname, Rrtype = TypeA, Class = ClassINET,
                                         Ttl = 30, Rdlength = 0\<rparr>
                                    (ParseIP env (last_match (leftmost_label qname) (loaded_Records env)))]),
               Counter_Inc (WithServer env ctx),
               WriteMsg w ((SetReply new_Msg r)
                 \<lparr>Authoritative := True,
                  Answer := [RR_A \<lparr>Hdr_Name = qname, Rrtype = TypeA, Class = ClassINET,
                                    Ttl = 30, Rdlength = 0\<rparr>
                               (ParseIP env (last_match (leftmost_label qname) (loaded_Records env)))]\<rparr>)])
     \<and> writes evs = [] \<and> delegations evs = [] \<and> increments evs = []"
proof -
  obtain evs :: "('a, 'b) event list" where
    loop: "range_Records qname (loaded_Records env) [] =
             Inr (last_match (leftmost_label qname) (loaded_Records env), evs)"
    and quiet: "writes evs = []" "delegations evs = []" "increments evs = []"
    using range_Records_last_match [of qname "loaded_Records env"] by blast
  have "ServeDNS_answer env ctx w r qname [] =
       (Inr (RcodeSuccess, None),
        evs @ [Log_Info (Answers [RR_A \<lparr>Hdr_Name = qname, Rrtype = TypeA, Class = ClassINET,
                                         Ttl = 30, Rdlength = 0\<rparr>
                                    (ParseIP env (last_match (leftmost_label qname) (loaded_Records env)))]),
               Counter_Inc (WithServer env ctx),
               WriteMsg w ((SetReply new_Msg r)
                 \<lparr>Authoritative := True,
                  Answer := [RR_A \<lparr>Hdr_Name = qname, Rrtype = TypeA, Class = ClassINET,
                                    Ttl = 30, Rdlength = 0\<rparr>
                               (ParseIP env (last_match (leftmost_label qname) (loaded_Records env)))]\<rparr>)])"
    using loop unfolding ServeDNS_answer_def loaded_Records_def
    by (simp add: case_prod_beta Let_def)
  with quiet show ?thesis by blast
qed

lemma ServeDNS_address:
  assumes "QType r = TypeA \<or> QType r = TypeAAAA"
  shows "ServeDNS env n ctx w r =
           (fst (ServeDNS_answer env ctx w r (request_Name env r) []),
            [Log_Debug ''Received response'', Log_Info (Text (request_Name env r))]
              @ snd (ServeDNS_answer env ctx w r (request_Name env r) []))"
  using assms by (auto simp add: ServeDNS_def Let_def case_prod_beta)

lemma ServeDNS_other:
  assumes "QType r \<noteq> TypeA" and "QType r \<noteq> TypeAAAA"
  shows "ServeDNS env n ctx w r =
           (Inr (fst (NextOrFailure ''nightlightdns'' (Next n) ctx w r)),
            [Log_Debug ''Received response'', Log_Info (Text (request_Name env r))]
              @ snd (NextOrFailure ''nightlightdns'' (Next n) ctx w r))"
  using assms by (simp add: ServeDNS_def Let_def return_stmt_def Nightlightdns_Name_def)

lemma ServeDNS_address_events:
  assumes "QType r = TypeA \<or> QType r = TypeAAAA"
  shows "\<exists>evs. ServeDNS env n ctx w r =
       (Inr (RcodeSuccess, None),
        evs @ [Counter_Inc (WithServer env ctx),
               WriteMsg w ((SetReply new_Msg r)
                 \<lparr>Authoritative := True,
                  Answer := [RR_A \<lparr>Hdr_Name = request_Name env r, Rrtype = TypeA, Class = ClassINET,
                                    Ttl = 30, Rdlength = 0\<rparr>
                               (ParseIP env (last_match (leftmost_label (request_Name env r)) (loaded_Records env)))]\<rparr>)])
     \<and> writes evs = [] \<and> delegations evs = [] \<and> increments evs = []"
proof -
  obtain evs where
    eq: "ServeDNS_answer env ctx w r (request_Name env r) [] =
       (Inr (RcodeSuccess, None),
        evs @ [Log_Info (Answers [RR_A \<lparr>Hdr_Name = request_Name env r, Rrtype = TypeA, Class = ClassINET,
                                         Ttl = 30, Rdlength = 0\<rparr>
                                    (ParseIP env (last_match (leftmost_label (request_Name env r)) (loaded_Records env)))]),
               Counter_Inc (WithServer env ctx),
               WriteMsg w ((SetReply new_Msg r)
                 \<lparr>Authoritative := True,
                  Answer := [RR_A \<lparr>Hdr_Name = request_Name env r, Rrtype = TypeA, Class = ClassINET,
                                    Ttl = 30, Rdlength = 0\<rparr>
                               (ParseIP env (last_match (leftmost_label (request_Name env r)) (loaded_Records env)))]\<rparr>)])"
    and quiet: "writes evs = []" "delegations evs = []" "increments evs = []"
    using ServeDNS_answer_eq [of env ctx w r "request_Name env r"] by blast
  let ?pre = "[Log_Debug ''Received response'', Log_Info (Text (request_Name env r))] @ evs @
              [Log_Info (Answers [RR_A \<lparr>Hdr_Name = request_Name env r, Rrtype = TypeA, Class = ClassINET,
                                         Ttl = 30, Rdlength = 0\<rparr>
                                    (ParseIP env (last_match (leftmost_label (request_Name env r)) (loaded_Records env)))])]"
  have "ServeDNS env n ctx w r =
       (Inr (RcodeSuccess, None),
        ?pre @ [Counter_Inc (WithServer env ctx),
               WriteMsg w ((SetReply new_Msg r)
                 \<lparr>Authoritative := True,
                  Answer := [RR_A \<lparr>Hdr_Name = request_Name env r, Rrtype = TypeA, Class = ClassINET,
                                    Ttl = 30, Rdlength = 0\<rparr>
                               (ParseIP env (last_match (leftmost_label (request_Name env r)) (loaded_Records env)))]\<rparr>)])"
    by (simp add: ServeDNS_address [OF assms] eq)
  moreover have "writes ?pre = []" "delegations ?pre = []" "increments ?pre = []"
    using quiet by (simp_all add: writes_simps delegations_simps increments_simps)
  ultimately show ?thesis by blast
qed

lemma ServeDNS_other_events:
  assumes "QType r \<noteq> TypeA" and "QType r \<noteq> TypeAAAA"
  shows "increments (snd (ServeDNS env n ctx w r)) = []"
    and "writes (snd (ServeDNS env n ctx w r)) = []"
  using assms
  by (cases "Next n"; simp add: ServeDNS_other NextOrFailure_def increments_simps writes_simps)+

lemma written_address:
  assumes "QType r = TypeA \<or> QType r = TypeAAAA"
  shows "written (snd (ServeDNS env n ctx w r)) =
           [(SetReply new_Msg r)
                 \<lparr>Authoritative := True,
                  Answer := [RR_A \<lparr>Hdr_Name = request_Name env r, Rrtype = TypeA, Class = ClassINET,
                                    Ttl = 30, Rdlength = 0\<rparr>
                               (ParseIP env (last_match (leftmost_label (request_Name env r)) (loaded_Records env)))]\<rparr>]"
proof -
  obtain evs where
    "ServeDNS env n ctx w r =
       (Inr (RcodeSuccess, None),
        evs @ [Counter_Inc (WithServer env ctx),
               WriteMsg w ((SetReply new_Msg r)
                 \<lparr>Authoritative := True,
                  Answer := [RR_A \<lparr>Hdr_Name = request_Name env r, Rrtype = TypeA, Class = ClassINET,
                                    Ttl = 30, Rdlength = 0\<rparr>
                               (ParseIP env (last_match (leftmost_label (request_Name env r)) (loaded_Records env)))]\<rparr>)])"
    and "writes evs = []"
    using ServeDNS_address_events [OF assms, of env n ctx w] by blast
  then show ?thesis
    by (simp add: written_append written_writes_Nil)
qed

lemma before_increment_append:
  assumes "increments evs = []"
  shows "before_increment (evs @ Counter_Inc l # rest) = evs"
    and "from_increment (evs @ Counter_Inc l # rest) = Counter_Inc l # rest"
proof -
  from assms have "\<forall>e \<in> set evs. \<not> is_Counter_Inc e"
    by (simp add: increments_def filter_empty_conv)
  then show "before_increment (evs @ Counter_Inc l # rest) = evs"
    and "from_increment (evs @ Counter_Inc l # rest) = Counter_Inc l # rest"
    by (simp_all add: before_increment_def from_increment_def takeWhile_append2 dropWhile_append2)
qed

lemma no_increment:
  assumes "increments evs = []"
  shows "before_increment evs = evs" and "from_increment evs = []"
proof -
  from assms have "\<forall>e \<in> set evs. \<not> is_Counter_Inc e"
    by (simp add: increments_def filter_empty_conv)
  then show "before_increment evs = evs" and "from_increment evs = []"
    by (simp_all add: before_increment_def from_increment_def)
qed

lemma ServeDNS_address_order:
  assumes "QType r = TypeA \<or> QType r = TypeAAAA"
  shows "increments (snd (ServeDNS env n ctx w r)) = [Counter_Inc (WithServer env ctx)]
       \<and> writes (before_increment (snd (ServeDNS env n ctx w r))) = []
       \<and> (\<exists>m. from_increment (snd (ServeDNS env n ctx w r)) = [Counter_Inc (WithServer env ctx), WriteMsg w m])"
proof -
  obtain evs m where
    "ServeDNS env n ctx w r = (Inr (RcodeSuccess, None), evs @ [Counter_Inc (WithServer env ctx), WriteMsg w m])"
    and "writes evs = []" and "increments evs = []"
    using ServeDNS_address_events [OF assms, of env n ctx w] by blast
  then show ?thesis
    by (simp add: before_increment_append increments_simps)
qed

lemma requestCount_increments:
  "requestCount evs label = length (filter (\<lambda>e. e = Counter_Inc label) (increments evs))"
proof -
  have "(is_Counter_Inc e \<and> e = Counter_Inc label) = (e = Counter_Inc label)" for e :: "('a, 'b) event"
    by (cases e) simp_all
  then show ?thesis
    by (simp add: requestCount_def increments_def)
qed

section \<open>The examples evaluated\<close>

lemma QType_example_query: "QType (example_query qtype) = qtype"
  by (simp add: QType_def example_query_def)

lemma example_query_fields:
  "Msg_Id (example_query qtype) = 4711"
  "request_Name (example_env read) (example_query qtype) = ''host.example.com.''"
  by (simp_all add: example_query_def example_env_def)

lemma leftmost_label_example: "leftmost_label ''host.example.com.'' = ''host''"
  by (simp add: leftmost_label_def)

lemma length_bytes_of: "length (bytes_of s) = length s"
  by (simp add: bytes_of_def)

lemma texts_differ: "bytes_of mistyped_table_text \<noteq> bytes_of table_text"
proof
  assume "bytes_of mistyped_table_text = bytes_of table_text"
  then have "length (bytes_of mistyped_table_text) = length (bytes_of table_text)" by simp
  then show False
    by (simp add: length_bytes_of mistyped_table_text_def table_text_def)
qed

lemma texts_not_empty: "bytes_of table_text \<noteq> []" "bytes_of mistyped_table_text \<noteq> []"
  by (simp_all add: bytes_of_def table_text_def mistyped_table_text_def)

lemma loaded_Records_table_env:
  "loaded_Records table_env = [\<lparr>Name = ''host'', Ipaddress = ''10.0.0.5''\<rparr>]"
  by (simp add: loaded_Records_def table_env_def example_env_def example_Unmarshal_def)

lemma loaded_Records_mistyped_table_env:
  "loaded_Records mistyped_table_env =
     [\<lparr>Name = ''host'', Ipaddress = ''10.0.0.5''\<rparr>, \<lparr>Name = [], Ipaddress = []\<rparr>]"
  by (simp add: loaded_Records_def mistyped_table_env_def example_env_def example_Unmarshal_def texts_differ)

lemma Unmarshal_missing_table_env:
  "Unmarshal missing_table_env (fst (ReadFile missing_table_env ''dns.json'')) \<lparr>Records = []\<rparr>
     = (\<lparr>Records = []\<rparr>, Some (Err ''unexpected end of JSON input''))"
  using texts_not_empty
  by (simp add: missing_table_env_def example_env_def example_Unmarshal_def)

lemma ParseIP_example:
  "ParseIP (example_env read) ''10.0.0.5'' = [0, 0, 0, 0, 0, 0, 0, 0, 0, 0, 255, 255, 10, 0, 0, 5]"
  by (simp add: ParseIP_def example_env_def example_ParseIP_text_def)

lemma example_envs:
  "request_Name table_env (example_query qtype) = ''host.example.com.''"
  "request_Name mistyped_table_env (example_query qtype) = ''host.example.com.''"
  "request_Name missing_table_env (example_query qtype) = ''host.example.com.''"
  "ParseIP table_env ''10.0.0.5'' = [0, 0, 0, 0, 0, 0, 0, 0, 0, 0, 255, 255, 10, 0, 0, 5]"
  "ParseIP mistyped_table_env ''10.0.0.5'' = [0, 0, 0, 0, 0, 0, 0, 0, 0, 0, 255, 255, 10, 0, 0, 5]"
  "WithServer table_env ctx = ctx"
  by (simp_all add: table_env_def mistyped_table_env_def missing_table_env_def
      example_query_fields ParseIP_example)
    (simp add: example_env_def)

section \<open>The claims\<close>

subsection \<open>C1: the last matching record wins\<close>

text \<open>
  Claim C1. For every query name and every record table, the matcher compares the name
  of each record, in table order, with the leftmost dot-separated label of the query name
  and ends with the address of the last record of the table that has this name; when no
  record has it, the selected address is the empty text. The loop of \<open>ServeDNS\<close>, started
  with the empty \<open>outip\<close>, computes exactly \<open>last_match\<close> of the leftmost label.
\<close>

theorem matcher_selects_last_match:
  "\<exists>evs. (range_Records qname records [] :: panic + string \<times> ('ctx, 'w) event list) =
            Inr (last_match (leftmost_label qname) records, evs)"
  using range_Records_last_match [of qname records] by blast

text \<open>
  A table with two records for the same label: the later one is selected.
\<close>

lemma last_of_two_records_wins:
  "last_match (leftmost_label ''host.example.com.'')
     [\<lparr>Name = ''host'', Ipaddress = ''10.0.0.5''\<rparr>, \<lparr>Name = ''other'', Ipaddress = ''10.0.0.6''\<rparr>,
      \<lparr>Name = ''host'', Ipaddress = ''10.0.0.7''\<rparr>] = ''10.0.0.7''"
  by (simp add: leftmost_label_example last_match_def)

subsection \<open>C2: other query types are delegated\<close>

text \<open>
  Claim C2. For every query whose type is neither A nor AAAA, and a plugin that has a next
  handler, \<open>ServeDNS\<close> writes no reply of its own, calls the next handler once with the
  same context, writer and message, and returns exactly the result code and error of that
  handler.
\<close>

theorem other_types_go_to_next_handler:
  assumes "QType r \<noteq> TypeA" and "QType r \<noteq> TypeAAAA" and "Next n = Some next"
  shows "fst (ServeDNS env n ctx w r) = Inr (next ctx w r)
       \<and> writes (snd (ServeDNS env n ctx w r)) = []
       \<and> delegations (snd (ServeDNS env n ctx w r)) = [Next_ServeDNS ctx w r]"
  using assms
  by (simp add: ServeDNS_other NextOrFailure_def writes_simps delegations_simps)

text \<open>
  The claim at an MX query for \<open>host.example.com.\<close> with a next handler that answers
  NXDOMAIN.
\<close>

theorem other_types_go_to_next_handler_witness:
  "QType (example_query TypeMX) \<noteq> TypeA \<and> QType (example_query TypeMX) \<noteq> TypeAAAA
   \<and> Next example_plugin = Some example_next
   \<and> fst (ServeDNS table_env example_plugin ''dns://.:53'' 7 (example_query TypeMX)) = Inr (RcodeNameError, None)
   \<and> writes (snd (ServeDNS table_env example_plugin ''dns://.:53'' 7 (example_query TypeMX))) = []
   \<and> delegations (snd (ServeDNS table_env example_plugin ''dns://.:53'' 7 (example_query TypeMX)))
       = [Next_ServeDNS ''dns://.:53'' 7 (example_query TypeMX)]"
proof -
  have a: "QType (example_query TypeMX) \<noteq> TypeA"
    by (simp add: QType_example_query TypeMX_def TypeA_def)
  have b: "QType (example_query TypeMX) \<noteq> TypeAAAA"
    by (simp add: QType_example_query TypeMX_def TypeAAAA_def)
  have c: "Next example_plugin = Some example_next"
    by (simp add: example_plugin_def)
  show ?thesis
    using a b c other_types_go_to_next_handler [OF a b c, of table_env "''dns://.:53''" 7]
    by (simp add: example_next_def)
qed

text \<open>
  Without a next handler (the plugin is the last of the chain) there is nothing to forward
  to: \<open>plugin.NextOrFailure\<close> returns SERVFAIL with an error, and nothing is written.
\<close>

lemma without_next_handler:
  assumes "QType r \<noteq> TypeA" and "QType r \<noteq> TypeAAAA" and "Next n = None"
  shows "ServeDNS env n ctx w r =
           (Inr (RcodeServerFailure, Some (Plugin_Error ''nightlightdns'' (Err ''no next plugin found''))),
            [Log_Debug ''Received response'', Log_Info (Text (request_Name env r))])"
  using assms by (simp add: ServeDNS_other NextOrFailure_def)

subsection \<open>C3: the fields of the local reply\<close>

text \<open>
  Claim C3. For every query of type A or AAAA, \<open>ServeDNS\<close> returns the result code
  SUCCESS and no error, whatever the table and the address text are, and writes one reply:
  its answer has the query name (as \<open>request.Request.Name\<close> reports it), class INET,
  TTL 30 and, for address, \<open>net.ParseIP\<close> of the address text that the matcher selected;
  the reply is authoritative, is a response and carries the identifier of the query.
\<close>

theorem local_reply_fields:
  assumes "QType r = TypeA \<or> QType r = TypeAAAA"
  shows "fst (ServeDNS env n ctx w r) = Inr (RcodeSuccess, None)
       \<and> (\<exists>m hdr. writes (snd (ServeDNS env n ctx w r)) = [WriteMsg w m]
             \<and> Answer m = [RR_A hdr (ParseIP env (last_match (leftmost_label (request_Name env r))
                                                              (loaded_Records env)))]
             \<and> Hdr_Name hdr = request_Name env r \<and> Class hdr = ClassINET \<and> Ttl hdr = 30
             \<and> Authoritative m \<and> Msg_Id m = Msg_Id r \<and> Response m)"
proof -
  obtain evs where
    "ServeDNS env n ctx w r =
       (Inr (RcodeSuccess, None),
        evs @ [Counter_Inc (WithServer env ctx),
               WriteMsg w ((SetReply new_Msg r)
                 \<lparr>Authoritative := True,
                  Answer := [RR_A \<lparr>Hdr_Name = request_Name env r, Rrtype = TypeA, Class = ClassINET,
                                    Ttl = 30, Rdlength = 0\<rparr>
                               (ParseIP env (last_match (leftmost_label (request_Name env r)) (loaded_Records env)))]\<rparr>)])"
    and "writes evs = []"
    using ServeDNS_address_events [OF assms, of env n ctx w] by blast
  then show ?thesis
    by (simp add: writes_simps SetReply_fields)
qed

text \<open>
  The round trip of the specification: the table with \<open>host\<close> at \<open>10.0.0.5\<close> and an A
  query for \<open>host.example.com.\<close>.
\<close>

theorem local_reply_fields_witness:
  "(QType (example_query TypeA) = TypeA \<or> QType (example_query TypeA) = TypeAAAA)
   \<and> fst (ServeDNS table_env example_plugin ''dns://.:53'' 7 (example_query TypeA)) = Inr (RcodeSuccess, None)
   \<and> (\<exists>m hdr. writes (snd (ServeDNS table_env example_plugin ''dns://.:53'' 7 (example_query TypeA)))
                  = [WriteMsg 7 m]
             \<and> Answer m = [RR_A hdr [0, 0, 0, 0, 0, 0, 0, 0, 0, 0, 255, 255, 10, 0, 0, 5] ]
             \<and> Hdr_Name hdr = ''host.example.com.'' \<and> Class hdr = ClassINET \<and> Ttl hdr = 30
             \<and> Authoritative m \<and> Msg_Id m = 4711 \<and> Response m)"
proof -
  have q: "QType (example_query TypeA) = TypeA \<or> QType (example_query TypeA) = TypeAAAA"
    by (simp add: QType_example_query)
  have sel: "last_match ''host'' (loaded_Records table_env) = ''10.0.0.5''"
    by (simp add: loaded_Records_table_env last_match_def)
  show ?thesis
    using q local_reply_fields [OF q, of table_env example_plugin "''dns://.:53''" 7]
    by (simp add: example_envs leftmost_label_example sel example_query_fields)
qed

subsection \<open>C4: one answer of type A\<close>

text \<open>
  Claim C4. For every query of type A or AAAA, the reply that \<open>ServeDNS\<close> writes has
  exactly one answer record, a \<open>dns.A\<close> record whose header has the record type A, also
  when the query asked for AAAA.
\<close>

theorem answer_is_one_A_record:
  assumes "QType r = TypeA \<or> QType r = TypeAAAA"
  shows "\<exists>m hdr ip. writes (snd (ServeDNS env n ctx w r)) = [WriteMsg w m]
           \<and> Answer m = [RR_A hdr ip] \<and> Rrtype hdr = TypeA"
proof -
  obtain evs where
    "ServeDNS env n ctx w r =
       (Inr (RcodeSuccess, None),
        evs @ [Counter_Inc (WithServer env ctx),
               WriteMsg w ((SetReply new_Msg r)
                 \<lparr>Authoritative := True,
                  Answer := [RR_A \<lparr>Hdr_Name = request_Name env r, Rrtype = TypeA, Class = ClassINET,
                                    Ttl = 30, Rdlength = 0\<rparr>
                               (ParseIP env (last_match (leftmost_label (request_Name env r)) (loaded_Records env)))]\<rparr>)])"
    and "writes evs = []"
    using ServeDNS_address_events [OF assms, of env n ctx w] by blast
  then show ?thesis
    by (simp add: writes_simps)
qed

text \<open>
  The claim at an AAAA query.
\<close>

theorem answer_is_one_A_record_witness:
  "(QType (example_query TypeAAAA) = TypeA \<or> QType (example_query TypeAAAA) = TypeAAAA)
   \<and> (\<exists>m hdr ip. writes (snd (ServeDNS table_env example_plugin ''dns://.:53'' 7 (example_query TypeAAAA)))
                     = [WriteMsg 7 m]
           \<and> Answer m = [RR_A hdr ip] \<and> Rrtype hdr = TypeA)"
proof -
  have q: "QType (example_query TypeAAAA) = TypeA \<or> QType (example_query TypeAAAA) = TypeAAAA"
    by (simp add: QType_example_query)
  show ?thesis
    using q answer_is_one_A_record [OF q, of table_env example_plugin "''dns://.:53''" 7]
    by simp
qed

subsection \<open>C5: errors of the table file\<close>

text \<open>
  Claim C5 says that a table file whose read or whose decoding fails gives an empty record
  set and a reply with an unset address. This fails for a decoding error that the decoder
  reports after it has stored records: for the table whose second entry has a number for a
  name, \<open>json.Unmarshal\<close> returns an error and leaves both entries in the destination;
  \<open>ServeDNS\<close> drops the error, matches the first entry and answers with its address.
\<close>

theorem decode_error_keeps_records:
  "snd (Unmarshal mistyped_table_env (fst (ReadFile mistyped_table_env ''dns.json'')) \<lparr>Records = []\<rparr>) \<noteq> None
   \<and> loaded_Records mistyped_table_env \<noteq> []
   \<and> fst (ServeDNS mistyped_table_env example_plugin ''dns://.:53'' 7 (example_query TypeA))
       = Inr (RcodeSuccess, None)
   \<and> concat (map Answer (written (snd (ServeDNS mistyped_table_env example_plugin ''dns://.:53'' 7 (example_query TypeA)))))
       = [RR_A \<lparr>Hdr_Name = ''host.example.com.'', Rrtype = TypeA, Class = ClassINET, Ttl = 30, Rdlength = 0\<rparr>
            [0, 0, 0, 0, 0, 0, 0, 0, 0, 0, 255, 255, 10, 0, 0, 5] ]"
proof -
  have q: "QType (example_query TypeA) = TypeA \<or> QType (example_query TypeA) = TypeAAAA"
    by (simp add: QType_example_query)
  have "snd (Unmarshal mistyped_table_env (fst (ReadFile mistyped_table_env ''dns.json'')) \<lparr>Records = []\<rparr>) \<noteq> None"
    by (simp add: mistyped_table_env_def example_env_def example_Unmarshal_def texts_differ)
  moreover have "fst (ServeDNS mistyped_table_env example_plugin ''dns://.:53'' 7 (example_query TypeA))
       = Inr (RcodeSuccess, None)"
    using ServeDNS_address_events [OF q, of mistyped_table_env example_plugin "''dns://.:53''" 7] by auto
  moreover have "last_match ''host'' (loaded_Records mistyped_table_env) = ''10.0.0.5''"
    by (simp add: loaded_Records_mistyped_table_env last_match_def)
  ultimately show ?thesis
    by (simp add: written_address [OF q] loaded_Records_mistyped_table_env
        example_envs leftmost_label_example)
qed

text \<open>
  Claim C5, amended. For every query of type A or AAAA, whatever the read of the table
  file and the decoder return, errors included, \<open>ServeDNS\<close> does not panic, returns
  SUCCESS and no error, and writes exactly one reply. The record set is what the decoder
  left in the destination, and the answer's address is selected from it as always;
  whenever the decoder left the destination empty, as it does for a missing file or a text
  that is not JSON, the record set is empty and the address of the answer is unset.
\<close>

theorem table_errors_are_not_signalled:
  assumes "QType r = TypeA \<or> QType r = TypeAAAA"
  shows "fst (ServeDNS env n ctx w r) = Inr (RcodeSuccess, None)
       \<and> (\<exists>m hdr. writes (snd (ServeDNS env n ctx w r)) = [WriteMsg w m]
             \<and> Answer m = [RR_A hdr (ParseIP env (last_match (leftmost_label (request_Name env r))
                                                              (loaded_Records env)))])
       \<and> (fst (Unmarshal env (fst (ReadFile env ''dns.json'')) \<lparr>Records = []\<rparr>) = \<lparr>Records = []\<rparr>
            \<longrightarrow> loaded_Records env = []
              \<and> (\<exists>m hdr. writes (snd (ServeDNS env n ctx w r)) = [WriteMsg w m]
                    \<and> Answer m = [RR_A hdr [] ]))"
proof -
  obtain evs where
    eq: "ServeDNS env n ctx w r =
       (Inr (RcodeSuccess, None),
        evs @ [Counter_Inc (WithServer env ctx),
               WriteMsg w ((SetReply new_Msg r)
                 \<lparr>Authoritative := True,
                  Answer := [RR_A \<lparr>Hdr_Name = request_Name env r, Rrtype = TypeA, Class = ClassINET,
                                    Ttl = 30, Rdlength = 0\<rparr>
                               (ParseIP env (last_match (leftmost_label (request_Name env r)) (loaded_Records env)))]\<rparr>)])"
    and quiet: "writes evs = []"
    using ServeDNS_address_events [OF assms, of env n ctx w] by blast
  have "last_match key [] = []" for key
    by (simp add: last_match_def)
  then have "loaded_Records env = [] \<Longrightarrow>
      ParseIP env (last_match (leftmost_label (request_Name env r)) (loaded_Records env)) = []"
    by (simp add: ParseIP_empty)
  moreover have "fst (Unmarshal env (fst (ReadFile env ''dns.json'')) \<lparr>Records = []\<rparr>) = \<lparr>Records = []\<rparr>
      \<Longrightarrow> loaded_Records env = []"
    by (simp add: loaded_Records_def)
  ultimately show ?thesis
    using eq quiet by (simp add: writes_simps)
qed

text \<open>
  The amended claim at a missing table file: the read fails, the decoder rejects the empty
  input and stores nothing.
\<close>

theorem table_errors_are_not_signalled_witness:
  "(QType (example_query TypeA) = TypeA \<or> QType (example_query TypeA) = TypeAAAA)
   \<and> snd (ReadFile missing_table_env ''dns.json'') \<noteq> None
   \<and> Unmarshal missing_table_env (fst (ReadFile missing_table_env ''dns.json'')) \<lparr>Records = []\<rparr>
       = (\<lparr>Records = []\<rparr>, Some (Err ''unexpected end of JSON input''))
   \<and> fst (ServeDNS missing_table_env example_plugin ''dns://.:53'' 7 (example_query TypeA))
       = Inr (RcodeSuccess, None)
   \<and> loaded_Records missing_table_env = []
   \<and> (\<exists>m hdr. writes (snd (ServeDNS missing_table_env example_plugin ''dns://.:53'' 7 (example_query TypeA)))
                  = [WriteMsg 7 m]
              \<and> Answer m = [RR_A hdr [] ])"
proof -
  have q: "QType (example_query TypeA) = TypeA \<or> QType (example_query TypeA) = TypeAAAA"
    by (simp add: QType_example_query)
  have rd: "snd (ReadFile missing_table_env ''dns.json'') \<noteq> None"
    by (simp add: missing_table_env_def example_env_def)
  show ?thesis
    using q rd Unmarshal_missing_table_env
      table_errors_are_not_signalled [OF q, of missing_table_env example_plugin "''dns://.:53''" 7]
    by simp
qed

subsection \<open>C6: a reply or a delegation, never both\<close>

text \<open>
  Claim C6. For every query, \<open>ServeDNS\<close> writes at most one reply of its own, and no
  call both writes a reply and calls the next handler: replies written and calls of the
  next handler together are at most one.
\<close>

theorem reply_or_delegation_not_both:
  "length (writes (snd (ServeDNS env n ctx w r))) + length (delegations (snd (ServeDNS env n ctx w r))) \<le> 1"
proof (cases "QType r = TypeA \<or> QType r = TypeAAAA")
  case True
  then obtain evs where
    "snd (ServeDNS env n ctx w r) =
        evs @ [Counter_Inc (WithServer env ctx),
               WriteMsg w ((SetReply new_Msg r)
                 \<lparr>Authoritative := True,
                  Answer := [RR_A \<lparr>Hdr_Name = request_Name env r, Rrtype = TypeA, Class = ClassINET,
                                    Ttl = 30, Rdlength = 0\<rparr>
                               (ParseIP env (last_match (leftmost_label (request_Name env r)) (loaded_Records env)))]\<rparr>)]"
    and "writes evs = []" and "delegations evs = []"
    using ServeDNS_address_events [of r env n ctx w] by fastforce
  then show ?thesis by (simp add: writes_simps delegations_simps)
next
  case False
  then show ?thesis
    by (cases "Next n") (simp_all add: ServeDNS_other NextOrFailure_def writes_simps delegations_simps)
qed

subsection \<open>C7: the SERVFAIL branch is dead\<close>

text \<open>
  Claim C7. The call of \<open>dnserror\<close> stands behind the \<open>return\<close> of the delegation, so
  no call of \<open>ServeDNS\<close> reaches it: the block of the two statements completes as its
  first statement does, and the SERVFAIL message that \<open>dnserror\<close> would write is not
  among the events of any call.
\<close>

theorem dnserror_never_runs:
  "block [return_stmt (NextOrFailure (Nightlightdns_Name n) (Next n) ctx w r),
          return_stmt (dnserror RcodeServerFailure \<lparr>W = w, Req = r\<rparr> None)]
     = return_stmt (NextOrFailure (Nightlightdns_Name n) (Next n) ctx w r)
   \<and> snd (dnserror RcodeServerFailure \<lparr>W = w, Req = r\<rparr> None :: (int \<times> error option) \<times> ('ctx, 'w) event list)
       = [WriteMsg w ((SetRcode new_Msg r RcodeServerFailure)\<lparr>Authoritative := True\<rparr>)]
   \<and> WriteMsg w ((SetRcode new_Msg r RcodeServerFailure)\<lparr>Authoritative := True\<rparr>)
       \<notin> set (snd (ServeDNS env n ctx w r))"
proof -
  have notin: "WriteMsg w ((SetRcode new_Msg r RcodeServerFailure)\<lparr>Authoritative := True\<rparr>)
       \<notin> set (snd (ServeDNS env n ctx w r))" (is "?e \<notin> _")
  proof
    assume mem: "?e \<in> set (snd (ServeDNS env n ctx w r))"
    then have "?e \<in> set (writes (snd (ServeDNS env n ctx w r)))"
      by (simp add: writes_def)
    show False
    proof (cases "QType r = TypeA \<or> QType r = TypeAAAA")
      case True
      obtain m where "writes (snd (ServeDNS env n ctx w r)) = [WriteMsg w m]" and "Rcode m = RcodeSuccess"
      proof -
        obtain evs where
          "ServeDNS env n ctx w r =
       (Inr (RcodeSuccess, None),
        evs @ [Counter_Inc (WithServer env ctx),
               WriteMsg w ((SetReply new_Msg r)
                 \<lparr>Authoritative := True,
                  Answer := [RR_A \<lparr>Hdr_Name = request_Name env r, Rrtype = TypeA, Class = ClassINET,
                                    Ttl = 30, Rdlength = 0\<rparr>
                               (ParseIP env (last_match (leftmost_label (request_Name env r)) (loaded_Records env)))]\<rparr>)])"
          and "writes evs = []"
          using ServeDNS_address_events [OF True, of env n ctx w] by blast
        then show ?thesis
          using that by (simp add: writes_simps SetReply_fields)
      qed
      with \<open>?e \<in> set (writes (snd (ServeDNS env n ctx w r)))\<close> show False
        by (auto simp add: SetRcode_def RcodeSuccess_def RcodeServerFailure_def)
    next
      case False
      then have "writes (snd (ServeDNS env n ctx w r)) = []"
        by (cases "Next n") (simp_all add: ServeDNS_other NextOrFailure_def writes_simps)
      with \<open>?e \<in> set (writes (snd (ServeDNS env n ctx w r)))\<close> show False by simp
    qed
  qed
  have "block [return_stmt (NextOrFailure (Nightlightdns_Name n) (Next n) ctx w r),
          return_stmt (dnserror RcodeServerFailure \<lparr>W = w, Req = r\<rparr> None)]
     = return_stmt (NextOrFailure (Nightlightdns_Name n) (Next n) ctx w r)"
    by (simp add: return_stmt_def)
  moreover have "snd (dnserror RcodeServerFailure \<lparr>W = w, Req = r\<rparr> None :: (int \<times> error option) \<times> ('ctx, 'w) event list)
       = [WriteMsg w ((SetRcode new_Msg r RcodeServerFailure)\<lparr>Authoritative := True\<rparr>)]"
    by (simp add: dnserror_def Let_def)
  ultimately show ?thesis using notin by blast
qed

subsection \<open>C8: the request counter\<close>

text \<open>
  Claim C8 says that the counter is incremented after the reply is written. The source
  increments the counter first and writes the reply afterwards: for the A query of the
  round trip, no reply is written before the increment and the one reply is written
  after it.
\<close>

theorem counter_is_incremented_before_the_write:
  "increments (snd (ServeDNS table_env example_plugin ''dns://.:53'' 7 (example_query TypeA)))
     = [Counter_Inc ''dns://.:53'']
   \<and> writes (before_increment (snd (ServeDNS table_env example_plugin ''dns://.:53'' 7 (example_query TypeA)))) = []
   \<and> length (writes (from_increment (snd (ServeDNS table_env example_plugin ''dns://.:53'' 7 (example_query TypeA))))) = 1"
proof -
  have q: "QType (example_query TypeA) = TypeA \<or> QType (example_query TypeA) = TypeAAAA"
    by (simp add: QType_example_query)
  show ?thesis
    using ServeDNS_address_order [OF q, of table_env example_plugin "''dns://.:53''" 7]
    by (auto simp add: writes_simps example_envs)
qed

text \<open>
  Claim C8, amended. For every query, the request counter is incremented exactly once,
  under the label of the serving instance, when the query is of type A or AAAA, and this
  increment comes before the reply is written; when the query is delegated the counter is
  left unchanged.
\<close>

theorem request_counter_before_reply:
  "requestCount (snd (ServeDNS env n ctx w r)) label
     = (if (QType r = TypeA \<or> QType r = TypeAAAA) \<and> label = WithServer env ctx then 1 else 0)
   \<and> increments (snd (ServeDNS env n ctx w r))
     = (if QType r = TypeA \<or> QType r = TypeAAAA then [Counter_Inc (WithServer env ctx)] else [])
   \<and> writes (before_increment (snd (ServeDNS env n ctx w r))) = []
   \<and> length (writes (from_increment (snd (ServeDNS env n ctx w r))))
     = (if QType r = TypeA \<or> QType r = TypeAAAA then 1 else 0)"
proof (cases "QType r = TypeA \<or> QType r = TypeAAAA")
  case True
  with ServeDNS_address_order [OF True, of env n ctx w] show ?thesis
    by (auto simp add: writes_simps requestCount_increments)
next
  case False
  then have "increments (snd (ServeDNS env n ctx w r)) = []"
    and "writes (snd (ServeDNS env n ctx w r)) = []"
    by (simp_all add: ServeDNS_other_events)
  with False show ?thesis
    by (simp add: no_increment writes_simps requestCount_increments)
qed

text \<open>
  The amended claim at a delegated MX query.
\<close>

theorem request_counter_before_reply_witness:
  "requestCount (snd (ServeDNS table_env example_plugin ''dns://.:53'' 7 (example_query TypeMX))) ''dns://.:53'' = 0
   \<and> increments (snd (ServeDNS table_env example_plugin ''dns://.:53'' 7 (example_query TypeMX))) = []
   \<and> writes (before_increment (snd (ServeDNS table_env example_plugin ''dns://.:53'' 7 (example_query TypeMX)))) = []
   \<and> length (writes (from_increment (snd (ServeDNS table_env example_plugin ''dns://.:53'' 7 (example_query TypeMX))))) = 0"
  using request_counter_before_reply [of table_env example_plugin "''dns://.:53''" 7 "example_query TypeMX"]
  by (simp add: QType_example_query TypeMX_def TypeA_def TypeAAAA_def)

subsection \<open>C9: the directive takes no argument\<close>

text \<open>
  Claim C9. The function \<open>setup\<close> accepts no argument: when no token follows the
  plugin's name it returns no error and adds the plugin to the configuration, the handler
  that it adds being a \<open>Nightlightdns\<close> with the given next handler; when a token follows
  it returns the dispenser's argument error wrapped by \<open>plugin.Error\<close> and adds
  nothing.
\<close>

theorem setup_accepts_no_argument:
  "fst (setup_nightlightdns lib c)
     = (if token_follows lib c
        then Some (Plugin_Error ''nightlightdns''
                     (Dispenser_ArgErr lib (snd (Dispenser_NextArg lib (snd (Dispenser_Next lib (Dispenser c)))))))
        else None)
   \<and> Plugin (GetConfig (snd (setup_nightlightdns lib c)))
     = (if token_follows lib c then Plugin (GetConfig c)
        else Plugin (GetConfig c) @ [\<lambda>next. \<lparr>Next = next\<rparr>])"
  by (simp add: setup_nightlightdns_def token_follows_def AddPlugin_def case_prod_beta)

text \<open>
  The claim at the directive alone and at the directive with one more token.
\<close>

theorem setup_accepts_no_argument_witness:
  "\<not> token_follows example_caddy (example_controller [''nightlightdns''])
   \<and> fst (setup_nightlightdns example_caddy (example_controller [''nightlightdns''])) = None
   \<and> Plugin (GetConfig (snd (setup_nightlightdns example_caddy (example_controller [''nightlightdns'']))))
       = [\<lambda>next. \<lparr>Next = next\<rparr>]
   \<and> token_follows example_caddy (example_controller [''nightlightdns'', ''extra''])
   \<and> fst (setup_nightlightdns example_caddy (example_controller [''nightlightdns'', ''extra'']))
       = Some (Plugin_Error ''nightlightdns'' (Err ''Wrong argument count or unexpected line ending''))
   \<and> Plugin (GetConfig (snd (setup_nightlightdns example_caddy (example_controller [''nightlightdns'', ''extra''])))) = []"
proof -
  have a: "\<not> token_follows example_caddy (example_controller [''nightlightdns''])"
    by (simp add: token_follows_def example_caddy_def example_controller_def)
  have b: "token_follows example_caddy (example_controller [''nightlightdns'', ''extra''])"
    by (simp add: token_follows_def example_caddy_def example_controller_def)
  show ?thesis
    using a b
      setup_accepts_no_argument [of example_caddy "example_controller [''nightlightdns'']"]
      setup_accepts_no_argument [of example_caddy "example_controller [''nightlightdns'', ''extra'']"]
    by (simp add: example_caddy_def example_controller_def)
qed

subsection \<open>C10: the first segment always exists\<close>

text \<open>
  Claim C10. For every query name, the empty name and names without dot included,
  splitting at the dots gives at least one segment, so that the index expression
  \<open>baseName[0]\<close> does not panic and yields the leftmost label; the loop over any record
  table and \<open>ServeDNS\<close> itself return without panic.
\<close>

theorem first_label_never_out_of_range:
  "Split qname (CHR ''.'') \<noteq> []
   \<and> index (Split qname (CHR ''.'')) 0 = Inr (leftmost_label qname)
   \<and> (\<exists>res. (range_Records qname records outip :: panic + string \<times> ('ctx, 'w) event list) = Inr res)
   \<and> (\<exists>res. fst (ServeDNS env n ctx w r) = Inr res)"
proof -
  have "Split qname (CHR ''.'') \<noteq> []"
    using Split_hd [of qname "CHR ''.''"] by auto
  moreover have "\<exists>res. (range_Records qname records outip :: panic + string \<times> ('ctx, 'w) event list) = Inr res"
    using range_Records_Inr [of qname records outip] by blast
  moreover have "\<exists>res. fst (ServeDNS env n ctx w r) = Inr res"
  proof (cases "QType r = TypeA \<or> QType r = TypeAAAA")
    case True
    then show ?thesis using ServeDNS_address_events [of r env n ctx w] by auto
  next
    case False
    then show ?thesis by (simp add: ServeDNS_other)
  qed
  ultimately show ?thesis by (simp add: index_baseName)
qed

end
